theory Spec2Isabelle
  imports Complex_Main
begin

section \<open>Python values used by the retrieval engine\<close>

text \<open>
  The engine of \<^verbatim>\<open>rag_system.py\<close> works on loosely typed dictionaries. Metadata
  dictionaries hold scalar values (the document processor stores strings, booleans and
  integers); filter dictionaries hold scalars, lists and tuples. A Python \<^verbatim>\<open>str\<close> is
  modelled by \<^typ>\<open>string\<close>, each character read as one code point below 256; strings
  with larger code points are outside the model. Dictionaries are association lists in
  insertion order, looked up with \<^const>\<open>map_of\<close>.
\<close>

datatype py_error =
  ValueError | IndexError | KeyError | TypeError | AttributeError | AssertionError
  | RuntimeError | EncodeError

datatype mval = MNone | MBool bool | MInt int | MStr string

datatype fval =
  FNone | FBool bool | FInt int | FStr string | FList "fval list" | FTuple "fval list"

type_synonym metadata = "(string \<times> mval) list"
type_synonym filters = "(string \<times> fval) list"

text \<open>\<^verbatim>\<open>d.get(key, default)\<close>\<close>

definition dict_get :: "(string \<times> 'a) list \<Rightarrow> string \<Rightarrow> 'a \<Rightarrow> 'a" where
  "dict_get d k dflt = (case map_of d k of None \<Rightarrow> dflt | Some v \<Rightarrow> v)"

text \<open>Truth value of a metadata value, as \<^verbatim>\<open>if x\<close> and \<^verbatim>\<open>x and ...\<close> take it.\<close>

fun truthy :: "mval \<Rightarrow> bool" where
  "truthy MNone = False"
| "truthy (MBool b) = b"
| "truthy (MInt i) = (i \<noteq> 0)"
| "truthy (MStr s) = (s \<noteq> [])"

subsection \<open>\<^verbatim>\<open>str.isdigit\<close>, \<^verbatim>\<open>int\<close>, \<^verbatim>\<open>str.lower\<close>, \<^verbatim>\<open>in\<close>\<close>

text \<open>
  Below code point 256, \<^verbatim>\<open>isdigit\<close> holds of the ten ASCII digits and of the
  superscripts U+00B2, U+00B3 and U+00B9. \<^verbatim>\<open>int\<close> accepts only decimal digits, so
  it raises \<^verbatim>\<open>ValueError\<close> on a superscript; it also raises when the interpreter's
  limit on the number of digits (\<^verbatim>\<open>sys.get_int_max_str_digits()\<close>, 0 for no limit) is
  exceeded.
\<close>

definition is_ascii_digit :: "char \<Rightarrow> bool" where
  "is_ascii_digit c = (48 \<le> (of_char c :: nat) \<and> (of_char c :: nat) \<le> 57)"

definition is_superscript_digit :: "char \<Rightarrow> bool" where
  "is_superscript_digit c =
     ((of_char c :: nat) = 178 \<or> (of_char c :: nat) = 179 \<or> (of_char c :: nat) = 185)"

definition str_isdigit :: "string \<Rightarrow> bool" where
  "str_isdigit s = (s \<noteq> [] \<and> list_all (\<lambda>c. is_ascii_digit c \<or> is_superscript_digit c) s)"

definition digit_value :: "char \<Rightarrow> nat" where
  "digit_value c = of_char c - 48"

definition decimal_value :: "string \<Rightarrow> nat" where
  "decimal_value s = foldl (\<lambda>a c. 10 * a + digit_value c) 0 s"

text \<open>\<^verbatim>\<open>int(s)\<close> for a string \<open>s\<close> on which \<^verbatim>\<open>isdigit\<close> holds; \<open>dlim\<close> is the digit limit.\<close>

definition py_int :: "nat \<Rightarrow> string \<Rightarrow> py_error + int" where
  "py_int dlim s =
     (if \<not> list_all is_ascii_digit s then Inl ValueError
      else if dlim \<noteq> 0 \<and> dlim < length s then Inl ValueError
      else Inr (int (decimal_value s)))"

definition char_lower :: "char \<Rightarrow> char" where
  "char_lower c =
     (let n = (of_char c :: nat) in
      if (65 \<le> n \<and> n \<le> 90) \<or> (192 \<le> n \<and> n \<le> 222 \<and> n \<noteq> 215)
      then char_of (n + 32) else c)"

definition str_lower :: "string \<Rightarrow> string" where
  "str_lower s = map char_lower s"

text \<open>\<^verbatim>\<open>a in b\<close> on strings: \<open>a\<close> occurs in \<open>b\<close> as a contiguous substring.\<close>

fun is_prefix :: "string \<Rightarrow> string \<Rightarrow> bool" where
  "is_prefix [] ys = True"
| "is_prefix (x # xs) [] = False"
| "is_prefix (x # xs) (y # ys) = (x = y \<and> is_prefix xs ys)"

fun str_contains :: "string \<Rightarrow> string \<Rightarrow> bool" where
  "str_contains a [] = (a = [])"
| "str_contains a (y # ys) = (is_prefix a (y # ys) \<or> str_contains a ys)"

text \<open>\<^verbatim>\<open>xs[i]\<close> on a list or tuple: a negative index counts from the end.\<close>

definition py_getitem :: "'a list \<Rightarrow> int \<Rightarrow> py_error + 'a" where
  "py_getitem xs i =
     (if 0 \<le> i \<and> i < int (length xs) then Inr (xs ! nat i)
      else if i < 0 \<and> - i \<le> int (length xs) then Inr (xs ! nat (int (length xs) + i))
      else Inl IndexError)"

section \<open>The filter evaluator: \<^verbatim>\<open>LegalRAGSystem._apply_filters\<close>\<close>

text \<open>
  \<^verbatim>\<open>bound <= year\<close> and \<^verbatim>\<open>year <= bound\<close> for an integer \<open>year\<close>: a \<^verbatim>\<open>bool\<close> bound
  counts as 0 or 1, any other non-integer bound raises \<^verbatim>\<open>TypeError\<close>.
\<close>

fun bound_value :: "fval \<Rightarrow> py_error + int" where
  "bound_value (FInt i) = Inr i"
| "bound_value (FBool b) = Inr (if b then 1 else 0)"
| "bound_value v = Inl TypeError"

text \<open>
  \<^verbatim>\<open>value[0] <= year <= value[1]\<close>: a chained comparison, which reads \<^verbatim>\<open>value[1]\<close>
  only when the first comparison holds.
\<close>

definition year_in_range :: "fval list \<Rightarrow> int \<Rightarrow> py_error + bool" where
  "year_in_range t year =
     (case py_getitem t 0 of Inl e \<Rightarrow> Inl e
      | Inr lo \<Rightarrow>
        (case bound_value lo of Inl e \<Rightarrow> Inl e
         | Inr l \<Rightarrow>
           if \<not> l \<le> year then Inr False
           else (case py_getitem t 1 of Inl e \<Rightarrow> Inl e
                 | Inr hi \<Rightarrow>
                   (case bound_value hi of Inl e \<Rightarrow> Inl e
                    | Inr h \<Rightarrow> Inr (year \<le> h)))))"

text \<open>
  The \<^verbatim>\<open>year_range\<close> branch. \<^verbatim>\<open>year_str and year_str.isdigit()\<close> stops at a false
  value; \<^verbatim>\<open>isdigit\<close> on a true value that is not a string raises
  \<^verbatim>\<open>AttributeError\<close>. The result \<open>Inr False\<close> stands for \<^verbatim>\<open>return False\<close>,
  \<open>Inr True\<close> for going on to the next key.
\<close>

definition check_year_range :: "nat \<Rightarrow> metadata \<Rightarrow> fval list \<Rightarrow> py_error + bool" where
  "check_year_range dlim md t =
     (let year_str = dict_get md ''act_year'' (MStr '''') in
      if \<not> truthy year_str then Inr True
      else (case year_str of
              MStr s \<Rightarrow>
                if str_isdigit s
                then (case py_int dlim s of Inl e \<Rightarrow> Inl e
                      | Inr year \<Rightarrow>
                        (case year_in_range t year of Inl e \<Rightarrow> Inl e
                         | Inr ok \<Rightarrow> Inr ok))
                else Inr True
            | _ \<Rightarrow> Inl AttributeError))"

text \<open>\<^verbatim>\<open>metadata.get('is_repealed', False) != value\<close> for a \<^verbatim>\<open>bool\<close> value.\<close>

fun equals_bool :: "mval \<Rightarrow> bool \<Rightarrow> bool" where
  "equals_bool (MBool a) b = (a = b)"
| "equals_bool (MInt i) b = (i = (if b then 1 else 0))"
| "equals_bool v b = False"

fun equals_str :: "mval \<Rightarrow> string \<Rightarrow> bool" where
  "equals_str (MStr a) s = (a = s)"
| "equals_str v s = False"

text \<open>
  \<^verbatim>\<open>any(kw.lower() in content_lower for kw in value)\<close>: evaluated left to right, stopping
  at the first keyword found; a keyword that is not a string raises when it is reached.
\<close>

fun any_keyword :: "string \<Rightarrow> fval list \<Rightarrow> py_error + bool" where
  "any_keyword content_lower [] = Inr False"
| "any_keyword content_lower (FStr kw # kws) =
     (if str_contains (str_lower kw) content_lower then Inr True
      else any_keyword content_lower kws)"
| "any_keyword content_lower (v # kws) = Inl AttributeError"

definition check_keywords :: "metadata \<Rightarrow> fval list \<Rightarrow> py_error + bool" where
  "check_keywords md kws =
     (case dict_get md ''act_title'' (MStr '''') of
        MStr title \<Rightarrow> any_keyword (str_lower title) kws
      | _ \<Rightarrow> Inl AttributeError)"

text \<open>One turn of the loop over \<^verbatim>\<open>filters.items()\<close>, the \<^verbatim>\<open>if\<close>/\<^verbatim>\<open>elif\<close> chain.\<close>

fun check_filter :: "nat \<Rightarrow> metadata \<Rightarrow> string \<times> fval \<Rightarrow> py_error + bool" where
  "check_filter dlim md (key, FTuple t) =
     (if key = ''year_range'' then check_year_range dlim md t else Inr True)"
| "check_filter dlim md (key, FBool b) =
     (if key = ''is_repealed''
      then Inr (equals_bool (dict_get md ''is_repealed'' (MBool False)) b)
      else Inr True)"
| "check_filter dlim md (key, FStr s) =
     (if key = ''language''
      then Inr (equals_str (dict_get md ''language_detected'' (MStr '''')) s)
      else Inr True)"
| "check_filter dlim md (key, FList kws) =
     (if key = ''keywords'' then check_keywords md kws else Inr True)"
| "check_filter dlim md (key, v) = Inr True"

fun apply_filters :: "nat \<Rightarrow> metadata \<Rightarrow> filters \<Rightarrow> py_error + bool" where
  "apply_filters dlim md [] = Inr True"
| "apply_filters dlim md (kv # rest) =
     (case check_filter dlim md kv of
        Inl e \<Rightarrow> Inl e
      | Inr False \<Rightarrow> Inr False
      | Inr True \<Rightarrow> apply_filters dlim md rest)"

section \<open>The engine's state and its external capabilities\<close>

text \<open>
  The embedding model, the similarity of two embedded texts (the inner product of their
  normalised vectors, a finite number) and the generation model are capabilities the
  engine consumes; they are parameters of the model. \<open>embed\<close> gives \<open>None\<close> when the
  embedding model raises on a text. \<open>generate_content\<close> covers the body of the
  \<^verbatim>\<open>try\<close> block of \<^verbatim>\<open>generate_response\<close>: the call and the read of \<^verbatim>\<open>response.text\<close>
  either raise an exception \<open>e\<close>, given by \<^verbatim>\<open>str(e)\<close>, or deliver a text.
  \<open>tie_order\<close> stands for the order in which the index library returns vectors of equal
  score, which it does not document: \<open>tie_order k scored i\<close> is the rank of position \<open>i\<close>
  among its equals when the \<open>k\<close> best of the scored positions are asked for.
\<close>

datatype generation = Raises string | Text_of string

record 'v capabilities =
  embed :: "string \<Rightarrow> 'v option"
  similarity :: "'v \<Rightarrow> 'v \<Rightarrow> real"
  generate_content :: "string \<Rightarrow> generation"
  max_str_digits :: nat
  tie_order :: "int \<Rightarrow> (real \<times> int) list \<Rightarrow> int \<Rightarrow> nat"

text \<open>
  The fields of a \<^verbatim>\<open>LegalRAGSystem\<close> that change: \<open>index\<close> is \<open>None\<close> until built or
  loaded, then the vectors added to the FAISS index, in order.
\<close>

record 'v rag_state =
  index :: "'v list option"
  documents :: "string list"
  document_metadata :: "metadata list"

record SearchResult =
  content :: string
  metadata :: metadata
  score :: real
  chunk_id :: mval
  chunk_type :: mval

section \<open>Similarity search: \<^verbatim>\<open>LegalRAGSystem.search\<close>\<close>

text \<open>
  \<^verbatim>\<open>IndexFlatIP.search(q, k)\<close> of the FAISS library: exact search, the \<open>k\<close> best
  positions by decreasing similarity, filled up to \<open>k\<close> slots with label \<open>-1\<close> (and the
  lowest single-precision score) when the index holds fewer than \<open>k\<close> vectors; it refuses
  \<open>k \<le> 0\<close>. Equal scores come in the order the parameter \<open>tie\<close> gives them (and by
  position where it ranks two positions alike). Index and query are embedded by one model,
  so their dimensions agree; scores are finite numbers, read as reals.
\<close>

definition lowest_score :: real where
  "lowest_score = - 340282346638528859811704183484516925440"

definition index_search ::
  "('v \<Rightarrow> 'v \<Rightarrow> real) \<Rightarrow> (int \<Rightarrow> (real \<times> int) list \<Rightarrow> int \<Rightarrow> nat) \<Rightarrow>
   'v list \<Rightarrow> 'v \<Rightarrow> int \<Rightarrow> py_error + (real \<times> int) list" where
  "index_search sim tie vs q k =
     (if k \<le> 0 then Inl AssertionError
      else
        let scored = map (\<lambda>i. (sim q (vs ! i), int i)) [0..<length vs];
            arranged = sort_key (\<lambda>c. tie k scored (snd c)) scored;
            best = take (nat k) (sort_key (\<lambda>c. - fst c) arranged)
        in Inr (best @ replicate (nat k - length best) (lowest_score, - 1)))"

text \<open>Decimal digits of a number, for \<^verbatim>\<open>f'chunk_{idx}'\<close> and \<^verbatim>\<open>f"Document {i}:"\<close>.\<close>

fun digits_fuel :: "nat \<Rightarrow> nat \<Rightarrow> string" where
  "digits_fuel 0 n = []"
| "digits_fuel (Suc f) n =
     (if n < 10 then [char_of (48 + n)]
      else digits_fuel f (n div 10) @ [char_of (48 + n mod 10)])"

definition str_of_nat :: "nat \<Rightarrow> string" where
  "str_of_nat n = digits_fuel (Suc n) n"

definition str_of_int :: "int \<Rightarrow> string" where
  "str_of_int i = (if i < 0 then CHR ''-'' # str_of_nat (nat (- i)) else str_of_nat (nat i))"

definition make_result :: "string \<Rightarrow> metadata \<Rightarrow> real \<Rightarrow> int \<Rightarrow> SearchResult" where
  "make_result c md s idx =
     \<lparr>content = c, metadata = md, score = s,
      chunk_id = dict_get md ''chunk_id'' (MStr (''chunk_'' @ str_of_int idx)),
      chunk_type = dict_get md ''chunk_type'' (MStr ''unknown'')\<rparr>"

text \<open>\<^verbatim>\<open>if filters:\<close> is false for \<^verbatim>\<open>None\<close> and for the empty dictionary.\<close>

definition passes_filters :: "nat \<Rightarrow> metadata \<Rightarrow> filters option \<Rightarrow> py_error + bool" where
  "passes_filters dlim md fl =
     (case fl of None \<Rightarrow> Inr True
      | Some f \<Rightarrow> if f = [] then Inr True else apply_filters dlim md f)"

text \<open>The loop over \<^verbatim>\<open>zip(scores[0], indices[0])\<close>; \<open>results\<close> is the list built so far.\<close>

fun search_loop ::
  "nat \<Rightarrow> 'v rag_state \<Rightarrow> filters option \<Rightarrow> int \<Rightarrow> (real \<times> int) list \<Rightarrow>
   SearchResult list \<Rightarrow> py_error + SearchResult list" where
  "search_loop dlim st fl top_k [] results = Inr results"
| "search_loop dlim st fl top_k ((s, idx) # rest) results =
     (if idx = - 1 then search_loop dlim st fl top_k rest results
      else
        case py_getitem (document_metadata st) idx of
          Inl e \<Rightarrow> Inl e
        | Inr md \<Rightarrow>
          (case passes_filters dlim md fl of
             Inl e \<Rightarrow> Inl e
           | Inr False \<Rightarrow> search_loop dlim st fl top_k rest results
           | Inr True \<Rightarrow>
             (case py_getitem (documents st) idx of
                Inl e \<Rightarrow> Inl e
              | Inr c \<Rightarrow>
                let results' = results @ [make_result c md s idx] in
                if top_k \<le> int (length results') then Inr results'
                else search_loop dlim st fl top_k rest results')))"

definition search ::
  "'v capabilities \<Rightarrow> 'v rag_state \<Rightarrow> string \<Rightarrow> int \<Rightarrow> filters option \<Rightarrow>
   py_error + SearchResult list" where
  "search env st query top_k fl =
     (case index st of
        None \<Rightarrow> Inl ValueError
      | Some vs \<Rightarrow>
        (case embed env query of
           None \<Rightarrow> Inl EncodeError
         | Some qv \<Rightarrow>
           (case index_search (similarity env) (tie_order env) vs qv (top_k * 2) of
              Inl e \<Rightarrow> Inl e
            | Inr cands \<Rightarrow> search_loop (max_str_digits env) st fl top_k cands [])))"

section \<open>Context assembly and prompt templates\<close>

text \<open>\<^verbatim>\<open>str(x)\<close> of a metadata value, as an f-string formats it.\<close>

fun str_of_mval :: "mval \<Rightarrow> string" where
  "str_of_mval MNone = ''None''"
| "str_of_mval (MBool b) = (if b then ''True'' else ''False'')"
| "str_of_mval (MInt i) = str_of_int i"
| "str_of_mval (MStr s) = s"

text \<open>
  One block of \<^verbatim>\<open>_build_context\<close>, after \<^verbatim>\<open>strip()\<close>: the formatted text starts with a
  line break before \<^verbatim>\<open>Document\<close> and ends with a line break and blanks after the
  three dots, and these are what \<^verbatim>\<open>strip()\<close> removes.
\<close>

definition context_part :: "nat \<Rightarrow> SearchResult \<Rightarrow> string" where
  "context_part i doc =
     ''Document '' @ str_of_nat i @ '':\<newline>'' @
     ''Title: '' @ str_of_mval (dict_get (metadata doc) ''act_title'' (MStr ''N/A'')) @ ''\<newline>'' @
     ''Year: '' @ str_of_mval (dict_get (metadata doc) ''act_year'' (MStr ''N/A'')) @ ''\<newline>'' @
     ''Section: '' @
       str_of_mval (dict_get (metadata doc) ''section_title'' (MStr ''Overview'')) @ ''\<newline>'' @
     ''Status: '' @
       (if truthy (dict_get (metadata doc) ''is_repealed'' (MBool False))
        then ''Repealed'' else ''Active'') @ ''\<newline>'' @
     ''Content: '' @ take 500 (content doc) @ ''...''"

text \<open>\<^verbatim>\<open>"\n\n".join(parts)\<close>\<close>

fun join_blank_line :: "string list \<Rightarrow> string" where
  "join_blank_line [] = []"
| "join_blank_line [p] = p"
| "join_blank_line (p # ps) = p @ ''\<newline>\<newline>'' @ join_blank_line ps"

definition build_context :: "SearchResult list \<Rightarrow> string" where
  "build_context docs =
     (if docs = [] then ''No relevant legal documents found.''
      else join_blank_line (map (\<lambda>(i, doc). context_part i doc)
                                (zip [1..<Suc (length docs)] docs)))"

definition base_context :: "string \<Rightarrow> string \<Rightarrow> string" where
  "base_context query context =
     ''\<newline>'' @
     ''You are a Bangladesh Legal Assistant AI, specialized in helping with legal questions based on the Bangladesh legal database.\<newline>'' @
     ''\<newline>'' @
     ''Available Legal Context:\<newline>'' @
     context @
     ''\<newline>'' @
     ''\<newline>'' @
     ''Current Query: '' @
     query @
     ''\<newline>'' @
     ''        ''"

definition lawyer_instructions :: string where
  "lawyer_instructions =
     ''\<newline>'' @
     ''\<newline>'' @
     ''LAWYER MODE: You are acting as a legal professional providing expert legal advice.\<newline>'' @
     ''\<newline>'' @
     ''Instructions:\<newline>'' @
     ''1. Provide comprehensive legal analysis\<newline>'' @
     ''2. Cite specific acts, sections, and years\<newline>'' @
     ''3. Explain legal implications and consequences\<newline>'' @
     ''4. Suggest legal strategies or approaches\<newline>'' @
     ''5. Mention relevant precedents if applicable\<newline>'' @
     ''6. Use formal legal language\<newline>'' @
     ''7. Always caveat that this is general guidance and recommend consulting a practicing lawyer for specific cases\<newline>'' @
     ''\<newline>'' @
     ''Response format: Provide detailed legal analysis with citations.\<newline>''"

definition argument_instructions :: string where
  \<open>argument_instructions =
     ''\<newline>'' @
     ''\<newline>'' @
     ''ARGUMENT MODE: Help build legal arguments and counterarguments.\<newline>'' @
     ''\<newline>'' @
     ''Instructions:\<newline>'' @
     ''1. Identify the main legal issues\<newline>'' @
     ''2. Present arguments for different sides\<newline>'' @
     ''3. Cite supporting legal provisions\<newline>'' @
     ''4. Identify potential weaknesses in arguments\<newline>'' @
     ''5. Suggest evidence or precedents that might be relevant\<newline>'' @
     ''6. Present both plaintiff and defendant perspectives where applicable\<newline>'' @
     ''\<newline>'' @
     ''Response format: Structure as "Arguments For:" and "Arguments Against:" with legal citations.\<newline>''\<close>

definition research_instructions :: string where
  "research_instructions =
     ''\<newline>'' @
     ''\<newline>'' @
     ''RESEARCH MODE: Provide comprehensive legal research assistance.\<newline>'' @
     ''\<newline>'' @
     ''Instructions:\<newline>'' @
     ''1. Identify all relevant laws and regulations\<newline>'' @
     ''2. Provide historical context and amendments\<newline>'' @
     ''3. Compare with similar provisions in other acts\<newline>'' @
     ''4. Explain the legislative intent and purpose\<newline>'' @
     ''5. List related acts and cross-references\<newline>'' @
     ''6. Provide implementation guidelines if available\<newline>'' @
     ''\<newline>'' @
     ''Response format: Comprehensive research summary with extensive citations.\<newline>''"

definition simple_instructions :: string where
  "simple_instructions =
     ''\<newline>'' @
     ''\<newline>'' @
     ''SIMPLE MODE: Explain legal concepts in easy-to-understand language.\<newline>'' @
     ''\<newline>'' @
     ''Instructions:\<newline>'' @
     ''1. Use simple, non-technical language\<newline>'' @
     ''2. Explain legal jargon and concepts\<newline>'' @
     ''3. Provide practical examples\<newline>'' @
     ''4. Focus on what it means for ordinary citizens\<newline>'' @
     ''5. Break down complex procedures into steps\<newline>'' @
     ''6. Avoid excessive legal citations\<newline>'' @
     ''\<newline>'' @
     ''Response format: Clear, simple explanation that a non-lawyer can understand.\<newline>''"

definition general_instructions :: string where
  "general_instructions =
     ''\<newline>'' @
     ''\<newline>'' @
     ''GENERAL MODE: Provide balanced legal information and guidance.\<newline>'' @
     ''\<newline>'' @
     ''Instructions:\<newline>'' @
     ''1. Answer the question directly and clearly\<newline>'' @
     ''2. Provide relevant legal context\<newline>'' @
     ''3. Cite applicable laws with act names and years\<newline>'' @
     ''4. Explain practical implications\<newline>'' @
     ''5. Maintain professional but accessible tone\<newline>'' @
     ''6. Suggest next steps if appropriate\<newline>'' @
     ''\<newline>'' @
     ''Response format: Clear, informative response with appropriate legal citations.\<newline>''"

text \<open>
  \<^verbatim>\<open>_get_prompt_template(mode, query, context, history)\<close>. A conversation history is
  \<^verbatim>\<open>None\<close> or a list of dictionaries.
\<close>

type_synonym history = "(string \<times> mval) list list option"

definition get_prompt_template :: "string \<Rightarrow> string \<Rightarrow> string \<Rightarrow> history \<Rightarrow> string" where
  "get_prompt_template mode query context hist =
     (if mode = ''lawyer'' then base_context query context @ lawyer_instructions
      else if mode = ''argument'' then base_context query context @ argument_instructions
      else if mode = ''research'' then base_context query context @ research_instructions
      else if mode = ''simple'' then base_context query context @ simple_instructions
      else base_context query context @ general_instructions)"

section \<open>Generation and the chat orchestrator\<close>

definition generate_response ::
  "'v capabilities \<Rightarrow> string \<Rightarrow> SearchResult list \<Rightarrow> string \<Rightarrow> history \<Rightarrow> string" where
  "generate_response env query context_documents mode conversation_history =
     (let context = build_context context_documents;
          prompt = get_prompt_template mode query context conversation_history
      in case generate_content env prompt of
           Text_of t \<Rightarrow>
             if t \<noteq> [] then t
             else ''I apologize, but I couldn't generate a response. '' @
                  ''Please try rephrasing your question.''
         | Raises e \<Rightarrow> ''I encountered an error while processing your request: '' @ e)"

definition get_chat_response ::
  "'v capabilities \<Rightarrow> 'v rag_state \<Rightarrow> string \<Rightarrow> string \<Rightarrow> filters option \<Rightarrow> history \<Rightarrow> int \<Rightarrow>
   py_error + string \<times> SearchResult list" where
  "get_chat_response env st query mode fl conversation_history top_k =
     (case search env st query top_k fl of
        Inl e \<Rightarrow> Inl e
      | Inr search_results \<Rightarrow>
          Inr (generate_response env query search_results mode conversation_history,
               search_results))"

section \<open>Building, saving and loading the vector store\<close>

text \<open>
  The three files under \<^verbatim>\<open>vector_store_path\<close>. A file is \<open>None\<close> when it is absent or
  cannot be read back, and else holds the value written; writing is taken to succeed.
\<close>

record 'v store_files =
  index_faiss :: "'v list option"
  documents_pkl :: "string list option"
  metadata_pkl :: "metadata list option"

text \<open>A chunk dictionary; a field is \<open>None\<close> when the key is missing.\<close>

record chunk =
  doc_content :: "string option"
  doc_metadata :: "metadata option"

text \<open>
  \<^verbatim>\<open>save_vector_store\<close> gives the files as they are left: \<open>Inr\<close> after a normal return,
  \<open>Inl\<close> with the exception after a failure. With no index, \<^verbatim>\<open>faiss.write_index\<close> raises
  \<^verbatim>\<open>RuntimeError\<close> once it has opened \<^verbatim>\<open>index.faiss\<close>, and leaves there a file that
  cannot be read back; the two other files are not reached.
\<close>

definition save_vector_store ::
  "'v rag_state \<Rightarrow> 'v store_files \<Rightarrow> py_error \<times> 'v store_files + 'v store_files" where
  "save_vector_store st files =
     (case index st of
        None \<Rightarrow> Inl (RuntimeError, files\<lparr>index_faiss := None\<rparr>)
      | Some vs \<Rightarrow>
          Inr (files\<lparr>index_faiss := Some vs,
                     documents_pkl := Some (documents st),
                     metadata_pkl := Some (document_metadata st)\<rparr>))"

text \<open>
  \<^verbatim>\<open>load_vector_store\<close> assigns each field as soon as its file is read, so a load that
  returns \<^verbatim>\<open>False\<close> may have replaced the index already.
\<close>

definition load_vector_store :: "'v rag_state \<Rightarrow> 'v store_files \<Rightarrow> bool \<times> 'v rag_state" where
  "load_vector_store st files =
     (case index_faiss files of
        None \<Rightarrow> (False, st)
      | Some vs \<Rightarrow>
          let st1 = st\<lparr>index := Some vs\<rparr> in
          (case documents_pkl files of
             None \<Rightarrow> (False, st1)
           | Some ds \<Rightarrow>
               let st2 = st1\<lparr>documents := ds\<rparr> in
               (case metadata_pkl files of
                  None \<Rightarrow> (False, st2)
                | Some ms \<Rightarrow> (True, st2\<lparr>document_metadata := ms\<rparr>))))"

text \<open>\<^verbatim>\<open>create_embeddings\<close>: one batch, which fails as a whole when a text fails.\<close>

definition create_embeddings :: "'v capabilities \<Rightarrow> string list \<Rightarrow> 'v list option" where
  "create_embeddings env texts = those (map (embed env) texts)"

text \<open>
  \<^verbatim>\<open>build_vector_store\<close> returns the exception raised, if any, with the state and the
  files as they are left. \<^verbatim>\<open>self.documents\<close> and \<^verbatim>\<open>self.document_metadata\<close> are
  assigned before the embeddings are computed. The embeddings of an empty batch have no
  second dimension, so \<^verbatim>\<open>embeddings.shape[1]\<close> raises \<^verbatim>\<open>IndexError\<close>.
\<close>

definition build_vector_store ::
  "'v capabilities \<Rightarrow> 'v rag_state \<Rightarrow> 'v store_files \<Rightarrow> chunk list \<Rightarrow>
   py_error option \<times> 'v rag_state \<times> 'v store_files" where
  "build_vector_store env st files docs =
     (case those (map doc_content docs) of
        None \<Rightarrow> (Some KeyError, st, files)
      | Some texts \<Rightarrow>
          let st1 = st\<lparr>documents := texts\<rparr> in
          (case those (map doc_metadata docs) of
             None \<Rightarrow> (Some KeyError, st1, files)
           | Some mds \<Rightarrow>
               let st2 = st1\<lparr>document_metadata := mds\<rparr> in
               (case create_embeddings env texts of
                  None \<Rightarrow> (Some EncodeError, st2, files)
                | Some embeddings \<Rightarrow>
                    if embeddings = [] then (Some IndexError, st2, files)
                    else
                      let st3 = st2\<lparr>index := Some embeddings\<rparr> in
                      (case save_vector_store st3 files of
                         Inl (e, files') \<Rightarrow> (Some e, st3, files')
                       | Inr files' \<Rightarrow> (None, st3, files')))))"

text \<open>A \<^verbatim>\<open>LegalRAGSystem\<close> as the constructor leaves it.\<close>

definition fresh_state :: "'v rag_state" where
  "fresh_state = \<lparr>index = None, documents = [], document_metadata = []\<rparr>"

section \<open>The sibling year filter of the document processor\<close>

text \<open>
  \<^verbatim>\<open>DataProcessor.filter_by_year_range\<close> (\<^verbatim>\<open>data_processor.py\<close>) keeps a document only
  when its \<^verbatim>\<open>act_year\<close> is a digit string whose value lies in the range: the test made
  for one document, \<open>Inr True\<close> when it is appended to the result.
\<close>

definition filter_by_year_range_keeps :: "nat \<Rightarrow> metadata \<Rightarrow> int \<Rightarrow> int \<Rightarrow> py_error + bool" where
  "filter_by_year_range_keeps dlim md start_year end_year =
     (let year_str = dict_get md ''act_year'' (MStr '''') in
      if \<not> truthy year_str then Inr False
      else (case year_str of
              MStr s \<Rightarrow>
                if str_isdigit s
                then (case py_int dlim s of Inl e \<Rightarrow> Inl e
                      | Inr year \<Rightarrow> Inr (start_year \<le> year \<and> year \<le> end_year))
                else Inr False
            | _ \<Rightarrow> Inl AttributeError))"

section \<open>Notions used in the statements\<close>

text \<open>
  A candidate of the over-fetch window is admitted when it is not the sentinel and its
  metadata passes the filter; \<open>result_of\<close> is the \<^verbatim>\<open>SearchResult\<close> built at a candidate.
\<close>

definition admitted :: "nat \<Rightarrow> 'v rag_state \<Rightarrow> filters option \<Rightarrow> real \<times> int \<Rightarrow> bool" where
  "admitted dlim st fl c =
     (snd c \<noteq> - 1 \<and> passes_filters dlim (document_metadata st ! nat (snd c)) fl = Inr True)"

definition result_of :: "'v rag_state \<Rightarrow> real \<times> int \<Rightarrow> SearchResult" where
  "result_of st c =
     make_result (documents st ! nat (snd c)) (document_metadata st ! nat (snd c)) (fst c) (snd c)"


text \<open>
  The invariant of the vector index: it is present, and index, contents and metadata have
  the same length.
\<close>

definition store_consistent :: "'v rag_state \<Rightarrow> bool" where
  "store_consistent st =
     (case index st of None \<Rightarrow> False
      | Some vs \<Rightarrow> length vs = length (documents st) \<and>
                   length (documents st) = length (document_metadata st))"






text \<open>
  The index holds, position by position, the embeddings of the contents, and there is
  one metadata dictionary for each content.
\<close>

definition store_aligned :: "'v capabilities \<Rightarrow> 'v rag_state \<Rightarrow> bool" where
  "store_aligned env st =
     (case index st of None \<Rightarrow> False
      | Some vs \<Rightarrow> map Some vs = map (embed env) (documents st) \<and>
                   length (documents st) = length (document_metadata st))"

section \<open>A small corpus for concrete runs\<close>

text \<open>
  Three chunks after the scenario of the specification. The example embedding fails on an
  empty text and else measures the length of the text; similarity falls with the
  distance between two lengths.
\<close>

definition example_caps :: "nat capabilities" where
  "example_caps =
     \<lparr>embed = (\<lambda>t. if t = [] then None else Some (length t)),
      similarity = (\<lambda>q v. 1 / (1 + real (if q \<le> v then v - q else q - v))),
      generate_content = (\<lambda>p. Text_of ''See the Contract Act, 1872.''),
      max_str_digits = 4300,
      tie_order = (\<lambda>k scored i. 0)\<rparr>"

definition failing_caps :: "nat capabilities" where
  "failing_caps = example_caps\<lparr>generate_content := (\<lambda>p. Raises ''429 quota exceeded'')\<rparr>"

definition contract_act :: metadata where
  "contract_act =
     [(''act_title'', MStr ''Contract Act''), (''act_year'', MStr ''1872''),
      (''is_repealed'', MBool False)]"

definition penal_code :: metadata where
  "penal_code =
     [(''act_title'', MStr ''Penal Code''), (''act_year'', MStr ''1860''),
      (''is_repealed'', MBool False)]"

definition old_act :: metadata where
  "old_act =
     [(''act_title'', MStr ''Old Act''), (''act_year'', MStr ''1900''),
      (''is_repealed'', MBool True)]"

definition example_chunks :: "chunk list" where
  "example_chunks =
     [\<lparr>doc_content = Some ''contracts'', doc_metadata = Some contract_act\<rparr>,
      \<lparr>doc_content = Some ''penal offences'', doc_metadata = Some penal_code\<rparr>,
      \<lparr>doc_content = Some ''old'', doc_metadata = Some old_act\<rparr>]"

definition example_state :: "nat rag_state" where
  "example_state =
     \<lparr>index = Some [9, 14, 3],
      documents = [''contracts'', ''penal offences'', ''old''],
      document_metadata = [contract_act, penal_code, old_act]\<rparr>"

definition no_files :: "nat store_files" where
  "no_files = \<lparr>index_faiss = None, documents_pkl = None, metadata_pkl = None\<rparr>"

definition example_files :: "nat store_files" where
  "example_files =
     \<lparr>index_faiss = Some [9, 14, 3],
      documents_pkl = Some [''contracts'', ''penal offences'', ''old''],
      metadata_pkl = Some [contract_act, penal_code, old_act]\<rparr>"

section \<open>The search loop, step by step\<close>

lemma py_getitem_Inr_nonneg:
  "0 \<le> i \<Longrightarrow> py_getitem xs i = Inr x \<Longrightarrow> nat i < length xs \<and> x = xs ! nat i"
  by (auto simp: py_getitem_def split: if_splits)

lemma search_loop_sentinel:
  "search_loop dlim st fl top_k ((s, - 1) # rest) acc = search_loop dlim st fl top_k rest acc"
  by simp

lemma search_loop_rejected:
  "idx \<noteq> - 1 \<Longrightarrow> py_getitem (document_metadata st) idx = Inr md \<Longrightarrow>
   passes_filters dlim md fl = Inr False \<Longrightarrow>
   search_loop dlim st fl top_k ((s, idx) # rest) acc = search_loop dlim st fl top_k rest acc"
  by simp

lemma search_loop_accepted:
  "idx \<noteq> - 1 \<Longrightarrow> py_getitem (document_metadata st) idx = Inr md \<Longrightarrow>
   passes_filters dlim md fl = Inr True \<Longrightarrow> py_getitem (documents st) idx = Inr d \<Longrightarrow>
   search_loop dlim st fl top_k ((s, idx) # rest) acc =
     (if top_k \<le> int (length acc) + 1 then Inr (acc @ [make_result d md s idx])
      else search_loop dlim st fl top_k rest (acc @ [make_result d md s idx]))"
  by (simp add: Let_def)

lemma search_loop_Inr_cases:
  assumes "search_loop dlim st fl top_k ((s, idx) # rest) acc = Inr rs" and "idx \<noteq> - 1"
  obtains md where "py_getitem (document_metadata st) idx = Inr md"
      and "passes_filters dlim md fl = Inr False"
  | md d where "py_getitem (document_metadata st) idx = Inr md"
      and "passes_filters dlim md fl = Inr True"
      and "py_getitem (documents st) idx = Inr d"
proof (cases "py_getitem (document_metadata st) idx")
  case (Inl e)
  with assms show ?thesis by simp
next
  case md: (Inr md)
  show ?thesis
  proof (cases "passes_filters dlim md fl")
    case (Inl e)
    with assms md show ?thesis by simp
  next
    case b: (Inr b)
    show ?thesis
    proof (cases b)
      case False
      with md b that(1) show ?thesis by simp
    next
      case True
      show ?thesis
      proof (cases "py_getitem (documents st) idx")
        case (Inl e)
        with assms md b True show ?thesis by simp
      next
        case (Inr d)
        with md b True that(2) show ?thesis by simp
      qed
    qed
  qed
qed


declare search_loop.simps(2) [simp del]

lemma search_loop_exact:
  "int (length acc) < top_k \<Longrightarrow> \<forall>c\<in>set cands. - 1 \<le> snd c \<Longrightarrow>
   search_loop dlim st fl top_k cands acc = Inr rs \<Longrightarrow>
   rs = acc @ map (result_of st) (take (nat top_k - length acc) (filter (admitted dlim st fl) cands))"
proof (induction cands arbitrary: acc)
  case Nil
  then show ?case by simp
next
  case (Cons c cands)
  obtain s idx where c: "c = (s, idx)" by (cases c)
  have rest: "\<forall>c\<in>set cands. - 1 \<le> snd c" using Cons.prems(2) by simp
  show ?case
  proof (cases "idx = - 1")
    case True
    have "search_loop dlim st fl top_k cands acc = Inr rs"
      using Cons.prems(3) unfolding c True search_loop_sentinel .
    from Cons.IH [OF Cons.prems(1) rest this] show ?thesis
      using c True by (simp add: admitted_def)
  next
    case False
    with Cons.prems(2) c have nonneg: "0 \<le> idx" by auto
    from Cons.prems(3) have run: "search_loop dlim st fl top_k ((s, idx) # cands) acc = Inr rs"
      unfolding c .
    from run False show ?thesis
    proof (cases rule: search_loop_Inr_cases)
      case (1 md)
      have md_eq: "md = document_metadata st ! nat idx"
        using py_getitem_Inr_nonneg [OF nonneg 1(1)] by simp
      have "search_loop dlim st fl top_k cands acc = Inr rs"
        using run unfolding search_loop_rejected [OF False 1(1) 1(2)] .
      from Cons.IH [OF Cons.prems(1) rest this] show ?thesis
        using c 1(2) md_eq by (simp add: admitted_def)
    next
      case (2 md d)
      have md_eq: "md = document_metadata st ! nat idx"
        using py_getitem_Inr_nonneg [OF nonneg 2(1)] by simp
      have d_eq: "d = documents st ! nat idx"
        using py_getitem_Inr_nonneg [OF nonneg 2(3)] by simp
      have adm: "admitted dlim st fl c"
        using c False 2(2) md_eq by (simp add: admitted_def)
      have res: "make_result d md s idx = result_of st c"
        using c d_eq md_eq by (simp add: result_of_def)
      have step: "search_loop dlim st fl top_k ((s, idx) # cands) acc =
          (if top_k \<le> int (length acc) + 1 then Inr (acc @ [result_of st c])
           else search_loop dlim st fl top_k cands (acc @ [result_of st c]))"
        using search_loop_accepted [OF False 2(1) 2(2) 2(3)] res by simp
      obtain m where m: "nat top_k - length acc = Suc m"
        using Cons.prems(1) by (cases "nat top_k - length acc") auto
      show ?thesis
      proof (cases "top_k \<le> int (length acc) + 1")
        case True
        then have "m = 0" using m Cons.prems(1) by linarith
        moreover have "rs = acc @ [result_of st c]" using run step True by simp
        ultimately show ?thesis using adm m by simp
      next
        case False
        then have lt: "int (length (acc @ [result_of st c])) < top_k" by simp
        have "search_loop dlim st fl top_k cands (acc @ [result_of st c]) = Inr rs"
          using run step False by simp
        from Cons.IH [OF lt rest this]
        have "rs = (acc @ [result_of st c]) @ map (result_of st)
                (take (nat top_k - length (acc @ [result_of st c]))
                  (filter (admitted dlim st fl) cands))" .
        moreover have "nat top_k - length (acc @ [result_of st c]) = m" using m by simp
        ultimately show ?thesis using adm m by simp
      qed
    qed
  qed
qed



lemma index_search_props:
  assumes "index_search sim tie vs q k = Inr cands"
  shows "\<forall>c\<in>set cands. snd c = - 1 \<or>
            (0 \<le> snd c \<and> nat (snd c) < length vs \<and> fst c = sim q (vs ! nat (snd c)))"
    and "sorted_wrt (\<lambda>a b. b \<le> a) (map fst (filter (\<lambda>c. snd c \<noteq> - 1) cands))"
    and "length cands = nat k"
proof -
  define scored where "scored = map (\<lambda>i. (sim q (vs ! i), int i)) [0..<length vs]"
  define arranged where "arranged = sort_key (\<lambda>c. tie k scored (snd c)) scored"
  define best where "best = take (nat k) (sort_key (\<lambda>c. - fst c) arranged)"
  from assms have k: "0 < k" and cands: "cands = best @ replicate (nat k - length best) (lowest_score, - 1)"
    by (auto simp: index_search_def Let_def scored_def arranged_def best_def split: if_splits)
  have scored_set: "\<forall>c\<in>set scored. 0 \<le> snd c \<and> nat (snd c) < length vs \<and> fst c = sim q (vs ! nat (snd c))"
    by (auto simp: scored_def)
  have "set best \<subseteq> set scored"
    unfolding best_def arranged_def
    using set_take_subset [of "nat k"
        "sort_key (\<lambda>c. - fst c) (sort_key (\<lambda>c. tie k scored (snd c)) scored)"]
    by simp
  with scored_set have best_set:
    "\<forall>c\<in>set best. 0 \<le> snd c \<and> nat (snd c) < length vs \<and> fst c = sim q (vs ! nat (snd c))"
    by blast
  show "\<forall>c\<in>set cands. snd c = - 1 \<or>
            (0 \<le> snd c \<and> nat (snd c) < length vs \<and> fst c = sim q (vs ! nat (snd c)))"
    using best_set cands by auto
  have keep: "filter (\<lambda>c. snd c \<noteq> - 1) best = best"
    using best_set by (intro filter_True) auto
  have filt: "filter (\<lambda>c. snd c \<noteq> - 1) cands = best"
    using keep cands by simp
  have "sorted (map (\<lambda>c. - fst c) (sort_key (\<lambda>c. - fst c) arranged))"
    by (rule sorted_sort_key)
  then have "sorted_wrt (\<lambda>a b. - fst a \<le> - fst b) (sort_key (\<lambda>c. - fst c) arranged)"
    by (simp add: sorted_wrt_map)
  then have "sorted_wrt (\<lambda>a b. - fst a \<le> - fst b) best"
    unfolding best_def by (rule sorted_wrt_take)
  then have "sorted_wrt (\<lambda>a b. b \<le> a) (map fst best)"
    by (simp add: sorted_wrt_map)
  with filt show "sorted_wrt (\<lambda>a b. b \<le> a) (map fst (filter (\<lambda>c. snd c \<noteq> - 1) cands))"
    by simp
  show "length cands = nat k"
    using cands by (simp add: best_def arranged_def)
qed







lemma search_characterisation:
  assumes "search env st query top_k fl = Inr rs"
  obtains vs qv cands where "index st = Some vs" and "embed env query = Some qv"
    and "0 < top_k"
    and "index_search (similarity env) (tie_order env) vs qv (top_k * 2) = Inr cands"
    and "rs = map (result_of st)
           (take (nat top_k) (filter (admitted (max_str_digits env) st fl) cands))"
proof -
  from assms obtain vs where vs: "index st = Some vs"
    by (cases "index st") (auto simp: search_def)
  from assms vs obtain qv where qv: "embed env query = Some qv"
    by (cases "embed env query") (auto simp: search_def)
  from assms vs qv obtain cands where
    cands: "index_search (similarity env) (tie_order env) vs qv (top_k * 2) = Inr cands"
    by (cases "index_search (similarity env) (tie_order env) vs qv (top_k * 2)") (auto simp: search_def)
  from cands have pos: "0 < top_k"
    by (auto simp: index_search_def split: if_splits)
  from assms vs qv cands have
    loop: "search_loop (max_str_digits env) st fl top_k cands [] = Inr rs"
    by (simp add: search_def)
  have "\<forall>c\<in>set cands. - 1 \<le> snd c"
    using index_search_props(1) [OF cands] by fastforce
  from search_loop_exact [OF _ this loop] pos
  have "rs = map (result_of st)
           (take (nat top_k) (filter (admitted (max_str_digits env) st fl) cands))"
    by simp
  with vs qv pos cands that show ?thesis by blast
qed


lemma admitted_nonsentinel:
  "filter (admitted dlim st fl) cands = filter (admitted dlim st fl) (filter (\<lambda>c. snd c \<noteq> - 1) cands)"
  by (induction cands) (auto simp: admitted_def)

lemma score_result_of: "score (result_of st c) = fst c"
  by (simp add: result_of_def make_result_def)


lemma apply_filters_True_each:
  "apply_filters dlim md f = Inr True \<Longrightarrow> kv \<in> set f \<Longrightarrow> check_filter dlim md kv = Inr True"
proof (induction f)
  case Nil
  then show ?case by simp
next
  case (Cons a f)
  from Cons.prems(1) have a: "check_filter dlim md a = Inr True"
    and rest: "apply_filters dlim md f = Inr True"
    by (auto split: sum.splits bool.splits)
  from Cons.prems(2) have "kv = a \<or> kv \<in> set f" by simp
  then show ?case using a rest Cons.IH by blast
qed

lemma metadata_result_of: "metadata (result_of st c) = document_metadata st ! nat (snd c)"
  by (simp add: result_of_def make_result_def)

lemma content_result_of: "content (result_of st c) = documents st ! nat (snd c)"
  by (simp add: result_of_def make_result_def)

lemma year_in_range_pair:
  "year_in_range [FInt lo, FInt hi] y = Inr (lo \<le> y \<and> y \<le> hi)"
  by (simp add: year_in_range_def py_getitem_def)

lemma check_year_range_True:
  assumes "check_year_range dlim md [FInt lo, FInt hi] = Inr True"
    and "dict_get md ''act_year'' (MStr '''') = MStr s" and "str_isdigit s"
  shows "lo \<le> int (decimal_value s) \<and> int (decimal_value s) \<le> hi"
proof -
  from assms(3) have ne: "s \<noteq> []" by (simp add: str_isdigit_def)
  show ?thesis
  proof (cases "py_int dlim s")
    case (Inl e)
    with assms ne show ?thesis by (simp add: check_year_range_def)
  next
    case (Inr y)
    then have y: "y = int (decimal_value s)"
      by (auto simp: py_int_def split: if_splits)
    from assms ne Inr show ?thesis
      by (simp add: check_year_range_def year_in_range_pair y)
  qed
qed

lemma search_loop_in_range:
  "int (length acc) < top_k \<Longrightarrow> \<forall>c\<in>set cands. - 1 \<le> snd c \<Longrightarrow>
   search_loop dlim st fl top_k cands acc = Inr rs \<Longrightarrow>
   \<forall>c\<in>set (take (nat top_k - length acc) (filter (admitted dlim st fl) cands)).
      nat (snd c) < length (documents st) \<and> nat (snd c) < length (document_metadata st)"
proof (induction cands arbitrary: acc)
  case Nil
  then show ?case by simp
next
  case (Cons c cands)
  obtain s idx where c: "c = (s, idx)" by (cases c)
  have rest: "\<forall>c\<in>set cands. - 1 \<le> snd c" using Cons.prems(2) by simp
  show ?case
  proof (cases "idx = - 1")
    case True
    have "search_loop dlim st fl top_k cands acc = Inr rs"
      using Cons.prems(3) unfolding c True search_loop_sentinel .
    from Cons.IH [OF Cons.prems(1) rest this] show ?thesis
      using c True by (simp add: admitted_def)
  next
    case False
    with Cons.prems(2) c have nonneg: "0 \<le> idx" by auto
    from Cons.prems(3) have run: "search_loop dlim st fl top_k ((s, idx) # cands) acc = Inr rs"
      unfolding c .
    from run False show ?thesis
    proof (cases rule: search_loop_Inr_cases)
      case (1 md)
      have md_eq: "md = document_metadata st ! nat idx"
        using py_getitem_Inr_nonneg [OF nonneg 1(1)] by simp
      have "search_loop dlim st fl top_k cands acc = Inr rs"
        using run unfolding search_loop_rejected [OF False 1(1) 1(2)] .
      from Cons.IH [OF Cons.prems(1) rest this] show ?thesis
        using c 1(2) md_eq by (simp add: admitted_def)
    next
      case (2 md d)
      have in_md: "nat idx < length (document_metadata st)"
        and md_eq: "md = document_metadata st ! nat idx"
        using py_getitem_Inr_nonneg [OF nonneg 2(1)] by simp_all
      have in_d: "nat idx < length (documents st)"
        and d_eq: "d = documents st ! nat idx"
        using py_getitem_Inr_nonneg [OF nonneg 2(3)] by simp_all
      have adm: "admitted dlim st fl c"
        using c False 2(2) md_eq by (simp add: admitted_def)
      have res: "make_result d md s idx = result_of st c"
        using c d_eq md_eq by (simp add: result_of_def)
      have step: "search_loop dlim st fl top_k ((s, idx) # cands) acc =
          (if top_k \<le> int (length acc) + 1 then Inr (acc @ [result_of st c])
           else search_loop dlim st fl top_k cands (acc @ [result_of st c]))"
        using search_loop_accepted [OF False 2(1) 2(2) 2(3)] res by simp
      obtain m where m: "nat top_k - length acc = Suc m"
        using Cons.prems(1) by (cases "nat top_k - length acc") auto
      have this_one: "nat (snd c) < length (documents st) \<and>
          nat (snd c) < length (document_metadata st)"
        using c in_md in_d by simp
      show ?thesis
      proof (cases "top_k \<le> int (length acc) + 1")
        case True
        then have "m = 0" using m Cons.prems(1) by linarith
        then show ?thesis using adm m this_one by simp
      next
        case False
        then have lt: "int (length (acc @ [result_of st c])) < top_k" by simp
        have "search_loop dlim st fl top_k cands (acc @ [result_of st c]) = Inr rs"
          using run step False by simp
        from Cons.IH [OF lt rest this]
        have "\<forall>c\<in>set (take (nat top_k - length (acc @ [result_of st c]))
                  (filter (admitted dlim st fl) cands)).
            nat (snd c) < length (documents st) \<and> nat (snd c) < length (document_metadata st)" .
        moreover have "nat top_k - length (acc @ [result_of st c]) = m" using m by simp
        ultimately show ?thesis using adm m this_one by simp
      qed
    qed
  qed
qed

lemma those_length: "those xs = Some ys \<Longrightarrow> length ys = length xs \<and> map Some ys = xs"
proof (induction xs arbitrary: ys)
  case Nil
  then show ?case by simp
next
  case (Cons x xs)
  then show ?case by (cases x; cases "those xs") auto
qed

lemma build_success:
  assumes "build_vector_store env st files docs = (None, st', files')"
  shows "\<exists>vs. index st' = Some vs \<and> vs \<noteq> [] \<and> map Some vs = map (embed env) (documents st')
           \<and> map Some (documents st') = map doc_content docs
           \<and> map Some (document_metadata st') = map doc_metadata docs
           \<and> files' = files\<lparr>index_faiss := Some vs, documents_pkl := Some (documents st'),
                              metadata_pkl := Some (document_metadata st')\<rparr>"
proof -
  from assms obtain texts where texts: "those (map doc_content docs) = Some texts"
    by (cases "those (map doc_content docs)") (auto simp: build_vector_store_def)
  from assms texts obtain mds where mds: "those (map doc_metadata docs) = Some mds"
    by (cases "those (map doc_metadata docs)") (auto simp: build_vector_store_def Let_def)
  from assms texts mds obtain vs where vs: "create_embeddings env texts = Some vs"
    by (cases "create_embeddings env texts") (auto simp: build_vector_store_def Let_def)
  from assms texts mds vs have ne: "vs \<noteq> []"
    by (auto simp: build_vector_store_def Let_def split: if_splits)
  from assms texts mds vs ne have st': "st' = st\<lparr>documents := texts, document_metadata := mds, index := Some vs\<rparr>"
    and files': "files' = files\<lparr>index_faiss := Some vs, documents_pkl := Some texts,
                              metadata_pkl := Some mds\<rparr>"
    by (auto simp: build_vector_store_def Let_def save_vector_store_def)
  from those_length [OF texts] those_length [OF mds] vs those_length [of "map (embed env) texts" vs]
  show ?thesis
    by (simp add: st' files' ne create_embeddings_def)
qed

section \<open>Prompt templates\<close>

text \<open>
  C10. The rendered prompt does not depend on the conversation history: for every mode,
  query and context, any two histories (\<open>None\<close> included) give the same prompt, and so the
  same text is sent to the generation model and the same answer comes back.
\<close>

theorem prompt_independent_of_history:
  "get_prompt_template mode query context h1 = get_prompt_template mode query context h2
   \<and> generate_response env query docs mode h1 = generate_response env query docs mode h2"
  by (simp add: get_prompt_template_def generate_response_def)

text \<open>
  C5. A mode string outside the five known modes is rendered exactly as the mode
  \<^verbatim>\<open>general\<close>: the template falls through to its last branch.
\<close>

theorem unknown_mode_renders_general:
  assumes "mode \<notin> {''general'', ''lawyer'', ''argument'', ''research'', ''simple''}"
  shows "get_prompt_template mode query context hist =
         get_prompt_template ''general'' query context hist"
  using assms by (simp add: get_prompt_template_def)

theorem unknown_mode_renders_general_witness:
  "''unknown_value'' \<notin> {''general'', ''lawyer'', ''argument'', ''research'', ''simple''}
   \<and> get_prompt_template ''unknown_value'' ''What is theft?'' ''No relevant legal documents found.'' None =
     get_prompt_template ''general'' ''What is theft?'' ''No relevant legal documents found.'' None"
proof -
  have h: "''unknown_value'' \<notin> {''general'', ''lawyer'', ''argument'', ''research'', ''simple''}"
    by simp
  show ?thesis
    using h unknown_mode_renders_general [OF h, of "''What is theft?''"
        "''No relevant legal documents found.''" None]
    by simp
qed

section \<open>The year-range predicate\<close>

text \<open>
  C2. The claim asks that a record whose \<^verbatim>\<open>act_year\<close> is not a number fails a
  \<^verbatim>\<open>year_range\<close> filter. On the code such a record passes: with \<^verbatim>\<open>act_year\<close>
  \<^verbatim>\<open>'unknown'\<close> and \<^verbatim>\<open>year_range = (1971, 2024)\<close> the filter evaluator returns
  \<^verbatim>\<open>True\<close>, while the document processor's own year filter drops the same record.
\<close>

theorem year_filter_passes_unparseable_year:
  "apply_filters 4300 [(''act_year'', MStr ''unknown'')]
     [(''year_range'', FTuple [FInt 1971, FInt 2024])] = Inr True
   \<and> filter_by_year_range_keeps 4300 [(''act_year'', MStr ''unknown'')] 1971 2024 = Inr False"
  by (simp add: check_year_range_def filter_by_year_range_keeps_def dict_get_def
      str_isdigit_def is_ascii_digit_def is_superscript_digit_def)

section \<open>Similarity search\<close>

text \<open>
  C4. Whatever the query, \<open>top_k\<close> and filter, the list that \<^verbatim>\<open>search\<close> returns is in
  non-increasing order of score: each result scores at most as high as the one before it.
\<close>

theorem search_scores_non_increasing:
  assumes "search env st query top_k fl = Inr rs" and "Suc i < length rs"
  shows "score (rs ! Suc i) \<le> score (rs ! i)"
proof -
  from assms(1) obtain vs qv cands where
    cands: "index_search (similarity env) (tie_order env) vs qv (top_k * 2) = Inr cands"
    and rs: "rs = map (result_of st)
           (take (nat top_k) (filter (admitted (max_str_digits env) st fl) cands))"
    by (rule search_characterisation)
  define kept where
    "kept = take (nat top_k) (filter (admitted (max_str_digits env) st fl) cands)"
  have "sorted_wrt (\<lambda>a b. b \<le> a) (map fst (filter (\<lambda>c. snd c \<noteq> - 1) cands))"
    by (rule index_search_props(2) [OF cands])
  then have "sorted_wrt (\<lambda>a b. fst b \<le> fst a) (filter (\<lambda>c. snd c \<noteq> - 1) cands)"
    by (simp add: sorted_wrt_map)
  then have "sorted_wrt (\<lambda>a b. fst b \<le> fst a)
      (filter (admitted (max_str_digits env) st fl) (filter (\<lambda>c. snd c \<noteq> - 1) cands))"
    by (rule sorted_wrt_filter)
  then have "sorted_wrt (\<lambda>a b. fst b \<le> fst a) (filter (admitted (max_str_digits env) st fl) cands)"
    using admitted_nonsentinel [of "max_str_digits env" st fl cands] by simp
  then have sorted_kept: "sorted_wrt (\<lambda>a b. fst b \<le> fst a) kept"
    unfolding kept_def by (rule sorted_wrt_take)
  have len: "length rs = length kept" using rs by (simp add: kept_def)
  with assms(2) have "Suc i < length kept" "i < length kept" by simp_all
  with sorted_kept have "fst (kept ! Suc i) \<le> fst (kept ! i)"
    using sorted_wrt_nth_less [of "\<lambda>a b. fst b \<le> fst a" kept i "Suc i"] by simp
  moreover have "rs ! i = result_of st (kept ! i)" "rs ! Suc i = result_of st (kept ! Suc i)"
    using rs \<open>i < length kept\<close> \<open>Suc i < length kept\<close> by (simp_all add: kept_def)
  ultimately show ?thesis by (simp add: score_result_of)
qed

theorem search_scores_non_increasing_witness:
  "search example_caps example_state ''contract'' 2 None =
     Inr [result_of example_state (1 / 2, 0), result_of example_state (1 / 6, 2)]
   \<and> Suc 0 < length [result_of example_state (1 / 2, 0), result_of example_state (1 / 6, 2)]
   \<and> score ([result_of example_state (1 / 2, 0), result_of example_state (1 / 6, 2)] ! Suc 0)
       \<le> score ([result_of example_state (1 / 2, 0), result_of example_state (1 / 6, 2)] ! 0)"
proof -
  have run: "search example_caps example_state ''contract'' 2 None =
     Inr [result_of example_state (1 / 2, 0), result_of example_state (1 / 6, 2)]"
    by code_simp
  have len: "Suc 0 < length [result_of example_state (1 / 2, 0), result_of example_state (1 / 6, 2)]"
    by simp
  show ?thesis
    using run len search_scores_non_increasing [OF run len] by simp
qed




text \<open>
  C8. The claim takes \<^verbatim>\<open>year_range\<close> as a two-element list. The filter evaluator tests
  \<^verbatim>\<open>isinstance(value, tuple)\<close>, so a list is skipped and constrains nothing (the
  counterexample below returns an act of 1872 for the range 2000 to 2010). What holds:
  when \<^verbatim>\<open>year_range\<close> is a tuple \<open>(lo, hi)\<close> of integers, every returned result whose
  \<^verbatim>\<open>act_year\<close> is a digit string has a year within \<open>lo\<close> and \<open>hi\<close>; the same range given
  as a list passes every record.
\<close>

theorem year_range_tuple_respected:
  assumes "search env st query top_k (Some f) = Inr rs"
    and "(''year_range'', FTuple [FInt lo, FInt hi]) \<in> set f"
    and "r \<in> set rs"
    and "dict_get (metadata r) ''act_year'' (MStr '''') = MStr s" and "str_isdigit s"
  shows "lo \<le> int (decimal_value s) \<and> int (decimal_value s) \<le> hi
         \<and> check_filter (max_str_digits env) (metadata r)
             (''year_range'', FList [FInt lo, FInt hi]) = Inr True"
proof -
  from assms(1) obtain cands where
    rs: "rs = map (result_of st)
           (take (nat top_k) (filter (admitted (max_str_digits env) st (Some f)) cands))"
    by (rule search_characterisation)
  with assms(3) obtain c where c: "r = result_of st c"
    and "c \<in> set (take (nat top_k) (filter (admitted (max_str_digits env) st (Some f)) cands))"
    by auto
  then have "c \<in> set (filter (admitted (max_str_digits env) st (Some f)) cands)"
    by (meson in_set_takeD)
  then have "admitted (max_str_digits env) st (Some f) c" by simp
  then have "passes_filters (max_str_digits env) (metadata r) (Some f) = Inr True"
    by (simp add: admitted_def c metadata_result_of)
  moreover from assms(2) have "f \<noteq> []" by auto
  ultimately have "apply_filters (max_str_digits env) (metadata r) f = Inr True"
    by (simp add: passes_filters_def)
  from apply_filters_True_each [OF this assms(2)]
  have "check_year_range (max_str_digits env) (metadata r) [FInt lo, FInt hi] = Inr True"
    by simp
  from check_year_range_True [OF this assms(4,5)] show ?thesis by simp
qed

theorem year_range_tuple_respected_witness:
  "search example_caps example_state ''contract'' 2
      (Some [(''year_range'', FTuple [FInt 1870, FInt 1900])]) =
     Inr [result_of example_state (1 / 2, 0), result_of example_state (1 / 6, 2)]
   \<and> (''year_range'', FTuple [FInt 1870, FInt 1900]) \<in> set [(''year_range'', FTuple [FInt 1870, FInt 1900])]
   \<and> result_of example_state (1 / 2, 0) \<in>
        set [result_of example_state (1 / 2, 0), result_of example_state (1 / 6, 2)]
   \<and> dict_get (metadata (result_of example_state (1 / 2, 0))) ''act_year'' (MStr '''') = MStr ''1872''
   \<and> str_isdigit ''1872''
   \<and> 1870 \<le> int (decimal_value ''1872'') \<and> int (decimal_value ''1872'') \<le> 1900
   \<and> check_filter (max_str_digits example_caps) (metadata (result_of example_state (1 / 2, 0)))
        (''year_range'', FList [FInt 1870, FInt 1900]) = Inr True"
proof -
  have h1: "search example_caps example_state ''contract'' 2
      (Some [(''year_range'', FTuple [FInt 1870, FInt 1900])]) =
     Inr [result_of example_state (1 / 2, 0), result_of example_state (1 / 6, 2)]"
    by code_simp
  have h2: "(''year_range'', FTuple [FInt 1870, FInt 1900]) \<in> set [(''year_range'', FTuple [FInt 1870, FInt 1900])]"
    by simp
  have h3: "result_of example_state (1 / 2, 0) \<in>
        set [result_of example_state (1 / 2, 0), result_of example_state (1 / 6, 2)]"
    by simp
  have h4: "dict_get (metadata (result_of example_state (1 / 2, 0))) ''act_year'' (MStr '''') = MStr ''1872''"
    by code_simp
  have h5: "str_isdigit ''1872''" by code_simp
  from year_range_tuple_respected [OF h1 h2 h3 h4 h5] h1 h2 h3 h4 h5
  show ?thesis by blast
qed

theorem year_range_list_ignored_counterexample:
  "search example_caps example_state ''contract'' 1
      (Some [(''year_range'', FList [FInt 2000, FInt 2010])]) =
     Inr [\<lparr>content = ''contracts'',
           metadata = [(''act_title'', MStr ''Contract Act''), (''act_year'', MStr ''1872''),
                       (''is_repealed'', MBool False)],
           score = 1 / 2, chunk_id = MStr ''chunk_0'', chunk_type = MStr ''unknown''\<rparr>]
   \<and> py_int 4300 ''1872'' = Inr 1872 \<and> \<not> (2000 \<le> (1872::int) \<and> (1872::int) \<le> 2010)"
  by code_simp

section \<open>The vector store\<close>

text \<open>
  C9. After every build that returns normally, index, contents and metadata have one
  length, the index holds at position \<open>i\<close> the embedding of \<^verbatim>\<open>documents[i]\<close>, and
  \<^verbatim>\<open>documents[i]\<close> and \<^verbatim>\<open>document_metadata[i]\<close> are the content and the metadata of
  chunk \<open>i\<close>; the files are those \<^verbatim>\<open>save_vector_store\<close> writes from that state. When
  \<^verbatim>\<open>save_vector_store\<close> has written a state whose index holds the embeddings of its
  contents, with one metadata for each, every load of the written files returns
  \<^verbatim>\<open>True\<close> with the same index, contents and metadata, position by position, so the
  same holds of the loaded state. Every search result pairs \<^verbatim>\<open>documents[idx]\<close> with
  \<^verbatim>\<open>document_metadata[idx]\<close> and the similarity of the vector at \<open>idx\<close>. This does not
  hold of every load that returns \<^verbatim>\<open>True\<close>: the load reads the three files one by one
  and compares nothing. In the counterexample a build on no chunks fails after it has
  emptied the contents, a save writes that state, and a fresh load returns \<^verbatim>\<open>True\<close>
  with three vectors and no documents.
\<close>

theorem store_positions_agree:
  "(build_vector_store env st0 files0 docs = (None, st1, files1) \<longrightarrow>
      store_consistent st1 \<and> store_aligned env st1
      \<and> map Some (documents st1) = map doc_content docs
      \<and> map Some (document_metadata st1) = map doc_metadata docs
      \<and> save_vector_store st1 files0 = Inr files1)
   \<and> (store_aligned env sa \<and> save_vector_store sa fa = Inr files2 \<longrightarrow>
        (\<exists>st3. load_vector_store st2 files2 = (True, st3)
           \<and> index st3 = index sa \<and> documents st3 = documents sa
           \<and> document_metadata st3 = document_metadata sa
           \<and> store_consistent st3 \<and> store_aligned env st3))
   \<and> (search env st query top_k fl = Inr rs \<longrightarrow>
        (\<forall>r\<in>set rs. \<exists>idx vs qv. idx < length (documents st) \<and> idx < length (document_metadata st)
            \<and> index st = Some vs \<and> idx < length vs \<and> embed env query = Some qv
            \<and> content r = documents st ! idx \<and> metadata r = document_metadata st ! idx
            \<and> score r = similarity env qv (vs ! idx)))"
proof (intro conjI impI)
  assume b: "build_vector_store env st0 files0 docs = (None, st1, files1)"
  from build_success [OF b] obtain vs where vs: "index st1 = Some vs"
    and emb: "map Some vs = map (embed env) (documents st1)"
    and d: "map Some (documents st1) = map doc_content docs"
    and m: "map Some (document_metadata st1) = map doc_metadata docs"
    and f: "files1 = files0\<lparr>index_faiss := Some vs, documents_pkl := Some (documents st1),
                              metadata_pkl := Some (document_metadata st1)\<rparr>"
    by blast
  from emb have l1: "length vs = length (documents st1)"
    by (metis length_map)
  from d m have l2: "length (documents st1) = length (document_metadata st1)"
    by (metis length_map)
  show "store_consistent st1" using vs l1 l2 by (simp add: store_consistent_def)
  show "store_aligned env st1" using vs emb l2 by (simp add: store_aligned_def)
  show "map Some (documents st1) = map doc_content docs" by (rule d)
  show "map Some (document_metadata st1) = map doc_metadata docs" by (rule m)
  show "save_vector_store st1 files0 = Inr files1"
    using vs f by (simp add: save_vector_store_def)
next
  assume a: "store_aligned env sa \<and> save_vector_store sa fa = Inr files2"
  then obtain vs where vs: "index sa = Some vs"
    and emb: "map Some vs = map (embed env) (documents sa)"
    and l2: "length (documents sa) = length (document_metadata sa)"
    by (auto simp: store_aligned_def split: option.splits)
  from emb have l1: "length vs = length (documents sa)"
    by (metis length_map)
  from a vs have files: "files2 = fa\<lparr>index_faiss := Some vs,
      documents_pkl := Some (documents sa), metadata_pkl := Some (document_metadata sa)\<rparr>"
    by (simp add: save_vector_store_def)
  define st3 where "st3 = st2\<lparr>index := Some vs, documents := documents sa,
      document_metadata := document_metadata sa\<rparr>"
  have "load_vector_store st2 files2 = (True, st3)"
    by (simp add: load_vector_store_def files st3_def Let_def)
  moreover have "index st3 = index sa" "documents st3 = documents sa"
    "document_metadata st3 = document_metadata sa"
    by (simp_all add: st3_def vs)
  moreover have "store_consistent st3"
    using l1 l2 by (simp add: store_consistent_def st3_def)
  moreover have "store_aligned env st3"
    using emb l2 by (simp add: store_aligned_def st3_def)
  ultimately show "\<exists>st3. load_vector_store st2 files2 = (True, st3)
           \<and> index st3 = index sa \<and> documents st3 = documents sa
           \<and> document_metadata st3 = document_metadata sa
           \<and> store_consistent st3 \<and> store_aligned env st3"
    by blast
next
  assume s: "search env st query top_k fl = Inr rs"
  from s obtain vs qv cands where vs: "index st = Some vs" and qv: "embed env query = Some qv"
    and pos: "0 < top_k"
    and cands: "index_search (similarity env) (tie_order env) vs qv (top_k * 2) = Inr cands"
    and rs: "rs = map (result_of st)
           (take (nat top_k) (filter (admitted (max_str_digits env) st fl) cands))"
    by (rule search_characterisation)
  from s vs qv cands have loop: "search_loop (max_str_digits env) st fl top_k cands [] = Inr rs"
    by (simp add: search_def)
  show "\<forall>r\<in>set rs. \<exists>idx vs qv. idx < length (documents st) \<and> idx < length (document_metadata st)
            \<and> index st = Some vs \<and> idx < length vs \<and> embed env query = Some qv
            \<and> content r = documents st ! idx \<and> metadata r = document_metadata st ! idx
            \<and> score r = similarity env qv (vs ! idx)"
  proof
    fix r assume "r \<in> set rs"
    with rs obtain c where r: "r = result_of st c"
      and cin_take: "c \<in> set (take (nat top_k) (filter (admitted (max_str_digits env) st fl) cands))"
      by auto
    then have "c \<in> set (filter (admitted (max_str_digits env) st fl) cands)"
      by (meson in_set_takeD)
    then have cin: "c \<in> set cands" and adm: "admitted (max_str_digits env) st fl c" by simp_all
    from adm have ns: "snd c \<noteq> - 1" by (simp add: admitted_def)
    with index_search_props(1) [OF cands] cin
    have c: "0 \<le> snd c" "nat (snd c) < length vs" "fst c = similarity env qv (vs ! nat (snd c))"
      by auto
    have "\<forall>c\<in>set cands. - 1 \<le> snd c"
      using index_search_props(1) [OF cands] by fastforce
    from search_loop_in_range [OF _ this loop] pos cin_take
    have bounds: "nat (snd c) < length (documents st) \<and> nat (snd c) < length (document_metadata st)"
      by simp
    show "\<exists>idx vs qv. idx < length (documents st) \<and> idx < length (document_metadata st)
            \<and> index st = Some vs \<and> idx < length vs \<and> embed env query = Some qv
            \<and> content r = documents st ! idx \<and> metadata r = document_metadata st ! idx
            \<and> score r = similarity env qv (vs ! idx)"
      using bounds vs qv c r
      by (intro exI [of _ "nat (snd c)"] exI [of _ vs] exI [of _ qv])
         (simp add: content_result_of metadata_result_of score_result_of)
  qed
qed


theorem store_positions_agree_witness:
  "build_vector_store example_caps fresh_state no_files example_chunks =
     (None, example_state, example_files)
   \<and> store_consistent example_state \<and> store_aligned example_caps example_state
   \<and> map Some (documents example_state) = map doc_content example_chunks
   \<and> map Some (document_metadata example_state) = map doc_metadata example_chunks
   \<and> save_vector_store example_state no_files = Inr example_files
   \<and> (\<exists>st3. load_vector_store fresh_state example_files = (True, st3)
         \<and> index st3 = index example_state \<and> documents st3 = documents example_state
         \<and> document_metadata st3 = document_metadata example_state
         \<and> store_consistent st3 \<and> store_aligned example_caps st3)
   \<and> search example_caps example_state ''contract'' 2 None =
       Inr [result_of example_state (1 / 2, 0), result_of example_state (1 / 6, 2)]
   \<and> list_all (\<lambda>r.
        \<exists>idx vs qv. idx < length (documents example_state)
          \<and> idx < length (document_metadata example_state)
          \<and> index example_state = Some vs \<and> idx < length vs
          \<and> embed example_caps ''contract'' = Some qv
          \<and> content r = documents example_state ! idx
          \<and> metadata r = document_metadata example_state ! idx
          \<and> score r = similarity example_caps qv (vs ! idx))
       [result_of example_state (1 / 2, 0), result_of example_state (1 / 6, 2)]"
proof -
  have b: "build_vector_store example_caps fresh_state no_files example_chunks =
     (None, example_state, example_files)"
    by code_simp
  have s: "search example_caps example_state ''contract'' 2 None =
       Inr [result_of example_state (1 / 2, 0), result_of example_state (1 / 6, 2)]"
    by code_simp
  from store_positions_agree [of example_caps fresh_state no_files example_chunks
      example_state example_files example_state no_files example_files fresh_state
      example_state "''contract''" 2 None
      "[result_of example_state (1 / 2, 0), result_of example_state (1 / 6, 2)]"]
    b s
  show ?thesis unfolding list_all_iff by blast
qed

theorem load_unchecked_counterexample:
  "build_vector_store example_caps example_state example_files [] =
     (Some IndexError,
      \<lparr>index = Some [9::nat, 14, 3], documents = [], document_metadata = []\<rparr>,
      example_files)
   \<and> save_vector_store \<lparr>index = Some [9::nat, 14, 3], documents = [], document_metadata = []\<rparr>
        example_files =
       Inr \<lparr>index_faiss = Some [9::nat, 14, 3], documents_pkl = Some [], metadata_pkl = Some []\<rparr>
   \<and> load_vector_store fresh_state
        \<lparr>index_faiss = Some [9::nat, 14, 3], documents_pkl = Some [], metadata_pkl = Some []\<rparr> =
       (True, \<lparr>index = Some [9::nat, 14, 3], documents = [], document_metadata = []\<rparr>)
   \<and> \<not> store_consistent \<lparr>index = Some [9::nat, 14, 3], documents = [], document_metadata = []\<rparr>"
  by code_simp

text \<open>
  C7. For every state with a built index, \<^verbatim>\<open>save_vector_store\<close> succeeds and a
  \<^verbatim>\<open>load_vector_store\<close> in a fresh process returns \<^verbatim>\<open>True\<close> with the same contents,
  the same metadata and the same index, position by position.
\<close>

theorem save_load_round_trip:
  assumes "index st = Some vs"
  shows "\<exists>files' st'. save_vector_store st files = Inr files'
           \<and> load_vector_store fresh_state files' = (True, st')
           \<and> documents st' = documents st
           \<and> document_metadata st' = document_metadata st
           \<and> index st' = index st"
  using assms by (simp add: save_vector_store_def load_vector_store_def Let_def)

theorem save_load_round_trip_witness:
  "index example_state = Some [9, 14, 3]
   \<and> (\<exists>files' st'. save_vector_store example_state no_files = Inr files'
           \<and> load_vector_store fresh_state files' = (True, st')
           \<and> documents st' = documents example_state
           \<and> document_metadata st' = document_metadata example_state
           \<and> index st' = index example_state)"
proof -
  have h: "index example_state = Some [9, 14, 3]" by (simp add: example_state_def)
  from save_load_round_trip [OF h, of no_files] h show ?thesis by blast
qed

text \<open>
  C6. The code has no \<^verbatim>\<open>EmptyCorpusError\<close> and skips nothing. A build on no chunks fails
  with the \<^verbatim>\<open>IndexError\<close> of \<^verbatim>\<open>embeddings.shape[1]\<close>. When the content of any chunk
  fails to embed, the one batch call of \<^verbatim>\<open>create_embeddings\<close> fails and the whole build
  fails with it: the index is left as it was and no file is written, although contents
  and metadata have been replaced already.
\<close>

theorem build_fails_as_a_whole:
  "build_vector_store env st files [] =
     (Some IndexError, st\<lparr>documents := [], document_metadata := []\<rparr>, files)
   \<and> (those (map doc_content docs) = Some texts \<and> those (map doc_metadata docs) = Some mds
        \<and> (\<exists>t\<in>set texts. embed env t = None) \<longrightarrow>
      build_vector_store env st files docs =
        (Some EncodeError, st\<lparr>documents := texts, document_metadata := mds\<rparr>, files))"
proof (intro conjI impI)
  show "build_vector_store env st files [] =
     (Some IndexError, st\<lparr>documents := [], document_metadata := []\<rparr>, files)"
    by (simp add: build_vector_store_def create_embeddings_def)
next
  assume a: "those (map doc_content docs) = Some texts \<and> those (map doc_metadata docs) = Some mds
        \<and> (\<exists>t\<in>set texts. embed env t = None)"
  then obtain t where t: "t \<in> set texts" "embed env t = None" by blast
  have "those (map (embed env) texts) = None"
  proof (cases "those (map (embed env) texts)")
    case None
    then show ?thesis .
  next
    case (Some vs)
    from those_length [OF Some] have "map Some vs = map (embed env) texts" by simp
    moreover from t have "None \<in> set (map (embed env) texts)" by force
    ultimately have "None \<in> set (map Some vs)" by simp
    then show ?thesis by auto
  qed
  with a show "build_vector_store env st files docs =
        (Some EncodeError, st\<lparr>documents := texts, document_metadata := mds\<rparr>, files)"
    by (simp add: build_vector_store_def create_embeddings_def Let_def)
qed

theorem build_fails_as_a_whole_witness:
  "build_vector_store example_caps fresh_state no_files [] =
     (Some IndexError, fresh_state\<lparr>documents := [], document_metadata := []\<rparr>, no_files)
   \<and> those (map doc_content
        [\<lparr>doc_content = Some '''', doc_metadata = Some old_act\<rparr>,
         \<lparr>doc_content = Some ''contracts'', doc_metadata = Some contract_act\<rparr>])
       = Some ['''', ''contracts'']
   \<and> those (map doc_metadata
        [\<lparr>doc_content = Some '''', doc_metadata = Some old_act\<rparr>,
         \<lparr>doc_content = Some ''contracts'', doc_metadata = Some contract_act\<rparr>])
       = Some [old_act, contract_act]
   \<and> (\<exists>t\<in>set ['''', ''contracts'']. embed example_caps t = None)
   \<and> build_vector_store example_caps fresh_state no_files
        [\<lparr>doc_content = Some '''', doc_metadata = Some old_act\<rparr>,
         \<lparr>doc_content = Some ''contracts'', doc_metadata = Some contract_act\<rparr>] =
       (Some EncodeError,
        fresh_state\<lparr>documents := ['''', ''contracts''],
                    document_metadata := [old_act, contract_act]\<rparr>, no_files)"
proof -
  have h1: "those (map doc_content
        [\<lparr>doc_content = Some '''', doc_metadata = Some old_act\<rparr>,
         \<lparr>doc_content = Some ''contracts'', doc_metadata = Some contract_act\<rparr>])
       = Some ['''', ''contracts'']" by simp
  have h2: "those (map doc_metadata
        [\<lparr>doc_content = Some '''', doc_metadata = Some old_act\<rparr>,
         \<lparr>doc_content = Some ''contracts'', doc_metadata = Some contract_act\<rparr>])
       = Some [old_act, contract_act]" by simp
  have h3: "\<exists>t\<in>set ['''', ''contracts'']. embed example_caps t = None"
    by (simp add: example_caps_def)
  from build_fails_as_a_whole [of example_caps fresh_state no_files
      "[\<lparr>doc_content = Some '''', doc_metadata = Some old_act\<rparr>,
        \<lparr>doc_content = Some ''contracts'', doc_metadata = Some contract_act\<rparr>]"
      "['''', ''contracts'']" "[old_act, contract_act]"] h1 h2 h3
  show ?thesis by blast
qed

theorem build_does_not_skip_counterexample:
  "build_vector_store example_caps fresh_state no_files
     [\<lparr>doc_content = Some '''', doc_metadata = Some old_act\<rparr>,
      \<lparr>doc_content = Some ''contracts'', doc_metadata = Some contract_act\<rparr>] =
     (Some EncodeError,
      \<lparr>index = None, documents = ['''', ''contracts''],
        document_metadata = [old_act, contract_act]\<rparr>,
      \<lparr>index_faiss = None, documents_pkl = None, metadata_pkl = None\<rparr>)
   \<and> build_vector_store example_caps fresh_state no_files [] =
     (Some IndexError, \<lparr>index = None, documents = [], document_metadata = []\<rparr>,
      \<lparr>index_faiss = None, documents_pkl = None, metadata_pkl = None\<rparr>)"
  by code_simp

section \<open>The chat orchestrator\<close>

text \<open>
  C1. \<^verbatim>\<open>get_chat_response\<close> catches the failure of the generation model only. Whenever
  the search returns, it returns the pair of an answer and the list the search returned;
  when the generation model raises \<open>e\<close> the answer is the apology followed by
  \<^verbatim>\<open>str(e)\<close>, and the sources are still the search results, not the empty list.
  Whenever the search raises, as it does with \<^verbatim>\<open>ValueError\<close> when no index is built,
  \<^verbatim>\<open>get_chat_response\<close> raises the same exception.
\<close>

theorem chat_returns_answer_with_search_results:
  "(search env st query top_k fl = Inr rs \<longrightarrow>
      (\<exists>answer. get_chat_response env st query mode fl hist top_k = Inr (answer, rs)
         \<and> (\<forall>e. generate_content env (get_prompt_template mode query (build_context rs) hist)
                    = Raises e \<longrightarrow>
               answer = ''I encountered an error while processing your request: '' @ e)))
   \<and> (search env st query top_k fl = Inl err \<longrightarrow>
        get_chat_response env st query mode fl hist top_k = Inl err)"
proof (intro conjI impI)
  assume rs: "search env st query top_k fl = Inr rs"
  have "get_chat_response env st query mode fl hist top_k =
      Inr (generate_response env query rs mode hist, rs)"
    using rs by (simp add: get_chat_response_def)
  moreover have "\<forall>e. generate_content env (get_prompt_template mode query (build_context rs) hist)
                      = Raises e \<longrightarrow>
      generate_response env query rs mode hist =
        ''I encountered an error while processing your request: '' @ e"
    by (simp add: generate_response_def Let_def)
  ultimately show "\<exists>answer. get_chat_response env st query mode fl hist top_k = Inr (answer, rs)
         \<and> (\<forall>e. generate_content env (get_prompt_template mode query (build_context rs) hist)
                    = Raises e \<longrightarrow>
               answer = ''I encountered an error while processing your request: '' @ e)"
    by blast
next
  assume "search env st query top_k fl = Inl err"
  then show "get_chat_response env st query mode fl hist top_k = Inl err"
    by (simp add: get_chat_response_def)
qed

theorem chat_returns_answer_with_search_results_witness:
  "search failing_caps example_state ''contract'' 1 None =
     Inr [result_of example_state (1 / 2, 0)]
   \<and> (\<exists>answer. get_chat_response failing_caps example_state ''contract'' ''general'' None None 1
                  = Inr (answer, [result_of example_state (1 / 2, 0)])
         \<and> (\<forall>e. generate_content failing_caps
                    (get_prompt_template ''general'' ''contract''
                       (build_context [result_of example_state (1 / 2, 0)]) None)
                    = Raises e \<longrightarrow>
               answer = ''I encountered an error while processing your request: '' @ e))
   \<and> search failing_caps (fresh_state :: nat rag_state) ''contract'' 1 None = Inl ValueError
   \<and> get_chat_response failing_caps (fresh_state :: nat rag_state) ''contract'' ''general''
        None None 1 = Inl ValueError"
proof -
  have h1: "search failing_caps example_state ''contract'' 1 None =
     Inr [result_of example_state (1 / 2, 0)]"
    by code_simp
  have h2: "search failing_caps (fresh_state :: nat rag_state) ''contract'' 1 None = Inl ValueError"
    by code_simp
  from chat_returns_answer_with_search_results [of failing_caps example_state "''contract''" 1
      None "[result_of example_state (1 / 2, 0)]" "''general''" None ValueError]
    chat_returns_answer_with_search_results [of failing_caps fresh_state "''contract''" 1
      None "[]" "''general''" None ValueError]
    h1 h2
  show ?thesis by blast
qed

theorem chat_keeps_sources_counterexample:
  "get_chat_response failing_caps example_state ''contract'' ''general'' None None 1 =
     Inr (''I encountered an error while processing your request: 429 quota exceeded'',
          [\<lparr>content = ''contracts'',
            metadata = [(''act_title'', MStr ''Contract Act''), (''act_year'', MStr ''1872''),
                        (''is_repealed'', MBool False)],
            score = 1 / 2, chunk_id = MStr ''chunk_0'', chunk_type = MStr ''unknown''\<rparr>])
   \<and> get_chat_response failing_caps (fresh_state :: nat rag_state) ''contract'' ''general''
        None None 1 = Inl ValueError"
  by code_simp

end
